theory Spec2Isabelle
  imports Complex_Main "HOL-Library.Multiset" "HOL-Library.Word"
begin

section \<open>The matching engine: data model\<close>

text \<open>
  The engine of \<^verbatim>\<open>internal/engine/matching.go\<close> with the types of the
  \<^verbatim>\<open>engine\<close> package. Prices and amounts are Go \<^verbatim>\<open>float64\<close>; they are
  modelled as \<^typ>\<open>real\<close> with exact arithmetic, so the rounding of IEEE-754 doubles
  is not part of this model. Comparisons, the control flow and the values that are only
  copied are as in the source.
\<close>

text \<open>
  \<^verbatim>\<open>OrderType\<close> and \<^verbatim>\<open>MarginType\<close> are Go integer types with two named
  constants each; the handlers build no other value.
\<close>

datatype OrderType = Market | Limit

datatype MarginType = Cross | Isolated

record Order =
  ID :: string
  Price :: real
  Amount :: real
  InitialAmount :: real
  FilledAmount :: real
  Type :: OrderType
  IsBuyOrder :: bool
  Trader :: string
  Asset :: string
  Leverage :: "64 word"
  MarginType :: MarginType
  Expiration :: "64 word"
  StopLossPrice :: real
  TakeProfitPrice :: real

text \<open>
  \<^verbatim>\<open>MatchResult.Message\<close> is built by \<^verbatim>\<open>fmt.Sprintf\<close>; the model keeps the
  format (one constructor per format string) and its arguments instead of the rendered
  text.
\<close>

datatype message =
  StopLossTakeProfitMessage real
| MatchMessage string real real real real

text \<open>
  \<^verbatim>\<open>MatchResult\<close>. A record field is a constant of the theory, and
  \<^verbatim>\<open>FilledAmount\<close> is already the field of \<^typ>\<open>Order\<close>, so the result's
  \<^verbatim>\<open>FilledAmount\<close> is written \<open>ResultFilledAmount\<close>.
\<close>

record MatchResult =
  Success :: bool
  ResultFilledAmount :: real
  RemainingAmount :: real
  ExecutedPrice :: real
  Message :: message

record OrderBook =
  BuyOrders :: "Order list"
  SellOrders :: "Order list"

subsection \<open>The liquidity pool\<close>

text \<open>
  \<^verbatim>\<open>liquiditypool.LiquidityPoolClient\<close> is an interface with three methods. A
  client is modelled by the answers it gives; a Go \<^verbatim>\<open>error\<close> is its message,
  \<open>None\<close> for \<^verbatim>\<open>nil\<close>. Every method is called at most once while one order is
  processed, so a function of the arguments loses nothing within one call of
  \<^verbatim>\<open>ProcessOrder\<close>; between two calls the answers may change, which is another
  client (see \<open>reachable\<close> below).
\<close>

type_synonym error = "string option"

record LiquidityPoolClient =
  GetAvailableLiquidity :: "bool \<Rightarrow> real \<times> bool"
  TradeWithPool :: "string \<Rightarrow> real \<Rightarrow> bool \<Rightarrow> real \<times> error"
  GetCurrentPrice :: "string \<Rightarrow> real"

text \<open>The calls made to the pool, in order: the effect of processing an order outside the book.\<close>

datatype pool_call =
  CallGetCurrentPrice string
| CallGetAvailableLiquidity bool
| CallTradeWithPool string real bool

text \<open>
  \<^verbatim>\<open>Client.GetCurrentPrice\<close> of \<^verbatim>\<open>liquiditypool/client.go\<close>: the HTTP
  request fails, or the body does not decode, or it carries a price.
\<close>

datatype price_response = RequestFailed | DecodeFailed | PriceBody real

definition Client_GetCurrentPrice :: "price_response \<Rightarrow> real" where
  "Client_GetCurrentPrice resp =
     (case resp of RequestFailed \<Rightarrow> 0 | DecodeFailed \<Rightarrow> 0 | PriceBody price \<Rightarrow> price)"

record MatchingEngine =
  orderBook :: OrderBook
  liquidityPool :: "LiquidityPoolClient option"

definition NewMatchingEngine :: "LiquidityPoolClient option \<Rightarrow> MatchingEngine" where
  "NewMatchingEngine lp =
     \<lparr>orderBook = \<lparr>BuyOrders = [], SellOrders = []\<rparr>, liquidityPool = lp\<rparr>"

section \<open>The operations\<close>

text \<open>The package's own \<^verbatim>\<open>min\<close> on \<^verbatim>\<open>float64\<close>.\<close>

definition min_f :: "real \<Rightarrow> real \<Rightarrow> real" where
  "min_f a b = (if a < b then a else b)"

definition checkStopLossAndTakeProfit :: "Order \<Rightarrow> real \<Rightarrow> bool" where
  "checkStopLossAndTakeProfit order currentPrice =
     (if IsBuyOrder order then
        (if StopLossPrice order > 0 \<and> currentPrice \<le> StopLossPrice order then True
         else if TakeProfitPrice order > 0 \<and> currentPrice \<ge> TakeProfitPrice order then True
         else False)
      else
        (if StopLossPrice order > 0 \<and> currentPrice \<ge> StopLossPrice order then True
         else if TakeProfitPrice order > 0 \<and> currentPrice \<ge> TakeProfitPrice order then True
         else False))"

definition cleanupOrders :: "Order list \<Rightarrow> Order list" where
  "cleanupOrders orders = filter (\<lambda>order. FilledAmount order < Amount order) orders"

text \<open>
  \<^verbatim>\<open>sort.Slice\<close> of the Go library orders the slice by the given \<^verbatim>\<open>less\<close> and
  promises no order among elements of equal price. The model is an insertion sort on
  the price, ascending for an incoming buy and descending for an incoming sell.
\<close>

definition sortByPrice :: "bool \<Rightarrow> Order list \<Rightarrow> Order list" where
  "sortByPrice isBuyOrder orders =
     (if isBuyOrder then sort_key Price orders
      else sort_key (\<lambda>order. - Price order) orders)"

text \<open>The local variables of the loop of \<^verbatim>\<open>matchOrders\<close> that the loop changes.\<close>

record loop_vars =
  remainingAmount :: real
  filledAmount :: real
  weightedSum :: real
  orderbookFilled :: real

text \<open>
  The loop of \<^verbatim>\<open>matchOrders\<close> from index \<open>i\<close> on, as a recursion over the rest of the
  slice: it returns the slice as the loop leaves it and the variables. The first branch
  is the loop condition \<^verbatim>\<open>remainingAmount > 0\<close>, the second the \<^verbatim>\<open>continue\<close>,
  the third the \<^verbatim>\<open>break\<close>.
\<close>

fun matchLoop :: "Order \<Rightarrow> Order list \<Rightarrow> loop_vars \<Rightarrow> Order list \<times> loop_vars" where
  "matchLoop order [] v = ([], v)"
| "matchLoop order (matched # rest) v =
     (if \<not> remainingAmount v > 0 then (matched # rest, v)
      else if FilledAmount matched \<ge> Amount matched then
        (case matchLoop order rest v of (rest', v') \<Rightarrow> (matched # rest', v'))
      else if Type order = Limit \<and>
              ((IsBuyOrder order \<and> Price matched > Price order) \<or>
               (\<not> IsBuyOrder order \<and> Price matched < Price order))
      then (matched # rest, v)
      else
        (let matchAmount = min_f (remainingAmount v) (Amount matched - FilledAmount matched) in
         if matchAmount > 0 then
           (case matchLoop order rest
                   (v\<lparr>remainingAmount := remainingAmount v - matchAmount,
                      filledAmount := filledAmount v + matchAmount,
                      orderbookFilled := orderbookFilled v + matchAmount,
                      weightedSum := weightedSum v + matchAmount * Price matched\<rparr>)
            of (rest', v') \<Rightarrow>
              (matched\<lparr>FilledAmount := FilledAmount matched + matchAmount\<rparr> # rest', v'))
         else
           (case matchLoop order rest v of (rest', v') \<Rightarrow> (matched # rest', v'))))"

text \<open>
  \<^verbatim>\<open>matchOrders\<close> works on a pointer to one side of the book; the model returns the
  side as the function leaves it, and the caller stores it.
\<close>

definition matchOrders :: "Order \<Rightarrow> Order list \<Rightarrow> MatchResult \<times> Order list" where
  "matchOrders order matchingOrders =
     (case matchLoop order (sortByPrice (IsBuyOrder order) matchingOrders)
             \<lparr>remainingAmount = Amount order, filledAmount = 0,
              weightedSum = 0, orderbookFilled = 0\<rparr>
      of (walked, v) \<Rightarrow>
        (\<lparr>Success = (remainingAmount v = 0),
          ResultFilledAmount = filledAmount v,
          RemainingAmount = remainingAmount v,
          ExecutedPrice = (if filledAmount v > 0 then weightedSum v / filledAmount v else 0),
          Message = MatchMessage (ID order) (InitialAmount order) (filledAmount v)
                      (orderbookFilled v) 0\<rparr>,
         cleanupOrders walked))"

definition tryLiquidityPool ::
    "MatchingEngine \<Rightarrow> Order \<Rightarrow> real \<Rightarrow> (real \<times> error) \<times> pool_call list" where
  "tryLiquidityPool e order amount =
     (case liquidityPool e of
        None \<Rightarrow> ((0, Some ''no liquidity pool available''), [])
      | Some lp \<Rightarrow>
          (case GetAvailableLiquidity lp (IsBuyOrder order) of (available, ok) \<Rightarrow>
             if \<not> ok \<or> available \<le> 0 then
               ((0, Some ''insufficient liquidity in pool''),
                [CallGetAvailableLiquidity (IsBuyOrder order)])
             else
               (let lpAmount = min_f amount available in
                (TradeWithPool lp (ID order) lpAmount (IsBuyOrder order),
                 [CallGetAvailableLiquidity (IsBuyOrder order),
                  CallTradeWithPool (ID order) lpAmount (IsBuyOrder order)]))))"

text \<open>The side of the book an incoming order is matched against, and storing it back.\<close>

definition matchingSide :: "MatchingEngine \<Rightarrow> Order \<Rightarrow> Order list" where
  "matchingSide e order =
     (if IsBuyOrder order then SellOrders (orderBook e) else BuyOrders (orderBook e))"

definition storeMatchingSide :: "MatchingEngine \<Rightarrow> Order \<Rightarrow> Order list \<Rightarrow> MatchingEngine" where
  "storeMatchingSide e order orders =
     (if IsBuyOrder order then e\<lparr>orderBook := (orderBook e)\<lparr>SellOrders := orders\<rparr>\<rparr>
      else e\<lparr>orderBook := (orderBook e)\<lparr>BuyOrders := orders\<rparr>\<rparr>)"

text \<open>The lines both \<^verbatim>\<open>processMarketOrder\<close> and \<^verbatim>\<open>processLimitOrder\<close> run when
  the pool returns no error.\<close>

definition addPoolFill :: "MatchResult \<Rightarrow> real \<Rightarrow> MatchResult" where
  "addPoolFill result lpFilled =
     result\<lparr>ResultFilledAmount := ResultFilledAmount result + lpFilled,
            RemainingAmount := RemainingAmount result - lpFilled,
            Success := (RemainingAmount result - lpFilled = 0)\<rparr>"

definition processMarketOrder ::
    "MatchingEngine \<Rightarrow> Order \<Rightarrow> MatchResult \<times> MatchingEngine \<times> pool_call list" where
  "processMarketOrder e order =
     (case matchOrders order (matchingSide e order) of (result, orders) \<Rightarrow>
        (let e1 = storeMatchingSide e order orders in
         if RemainingAmount result > 0 then
           (case tryLiquidityPool e1 order (RemainingAmount result) of
              ((lpFilled, None), calls) \<Rightarrow> (addPoolFill result lpFilled, e1, calls)
            | ((lpFilled, Some err), calls) \<Rightarrow> (result, e1, calls))
         else (result, e1, [])))"

definition appendOwnSide :: "MatchingEngine \<Rightarrow> Order \<Rightarrow> Order \<Rightarrow> MatchingEngine" where
  "appendOwnSide e order remainingOrder =
     (if IsBuyOrder order then
        e\<lparr>orderBook := (orderBook e)\<lparr>BuyOrders := BuyOrders (orderBook e) @ [remainingOrder]\<rparr>\<rparr>
      else
        e\<lparr>orderBook := (orderBook e)\<lparr>SellOrders := SellOrders (orderBook e) @ [remainingOrder]\<rparr>\<rparr>)"

definition processLimitOrder ::
    "MatchingEngine \<Rightarrow> Order \<Rightarrow> MatchResult \<times> MatchingEngine \<times> pool_call list" where
  "processLimitOrder e order =
     (case matchOrders order (matchingSide e order) of (result, orders) \<Rightarrow>
        (let e1 = storeMatchingSide e order orders in
         if RemainingAmount result > 0 then
           (case tryLiquidityPool e1 order (RemainingAmount result) of (answer, calls) \<Rightarrow>
              (let result1 = (case answer of (lpFilled, None) \<Rightarrow> addPoolFill result lpFilled
                                           | (lpFilled, Some err) \<Rightarrow> result) in
               if RemainingAmount result1 > 0 then
                 (result1,
                  appendOwnSide e1 order (order\<lparr>Amount := RemainingAmount result1\<rparr>),
                  calls)
               else (result1, e1, calls)))
         else (result, e1, [])))"

text \<open>
  \<^verbatim>\<open>ProcessOrder\<close> calls \<^verbatim>\<open>e.liquidityPool.GetCurrentPrice\<close> with no nil check:
  on an engine built with a nil client the call panics.
\<close>

datatype panic = NilPointerDereference

definition ProcessOrder ::
    "MatchingEngine \<Rightarrow> Order \<Rightarrow> panic + MatchResult \<times> MatchingEngine \<times> pool_call list" where
  "ProcessOrder e order0 =
     (let order = order0\<lparr>InitialAmount := Amount order0, FilledAmount := 0\<rparr> in
      case liquidityPool e of
        None \<Rightarrow> Inl NilPointerDereference
      | Some lp \<Rightarrow>
          (let currentPrice = GetCurrentPrice lp (Asset order) in
           if checkStopLossAndTakeProfit order currentPrice then
             Inr (\<lparr>Success = True,
                   ResultFilledAmount = Amount order,
                   RemainingAmount = 0,
                   ExecutedPrice = currentPrice,
                   Message = StopLossTakeProfitMessage currentPrice\<rparr>,
                  e, [CallGetCurrentPrice (Asset order)])
           else
             (case (if Type order = Market then processMarketOrder e order
                    else processLimitOrder e order)
              of (result, e', calls) \<Rightarrow>
                Inr (result, e', CallGetCurrentPrice (Asset order) # calls))))"

section \<open>Notions used by the statements\<close>

subsection \<open>The protective thresholds\<close>

text \<open>
  The rule of the trigger evaluator as the source tests it, one threshold at a time. A
  threshold takes part when it is strictly positive (0 is the value of an unset
  threshold). The stop-loss then fires at or below the threshold for a buy and at or
  above it for a sell; the take-profit fires at or above the threshold on both sides.
\<close>

definition stopLossFires :: "Order \<Rightarrow> real \<Rightarrow> bool" where
  "stopLossFires order referencePrice =
     (0 < StopLossPrice order \<and>
      (if IsBuyOrder order then referencePrice \<le> StopLossPrice order
       else referencePrice \<ge> StopLossPrice order))"

definition takeProfitFires :: "Order \<Rightarrow> real \<Rightarrow> bool" where
  "takeProfitFires order referencePrice =
     (0 < TakeProfitPrice order \<and> referencePrice \<ge> TakeProfitPrice order)"

text \<open>
  The same rule following the words of the specification, not the source: the
  specification calls a threshold inactive when it is 0 or unset, so every other
  threshold takes part in the comparison.
\<close>

definition evaluate_as_specified :: "Order \<Rightarrow> real \<Rightarrow> bool" where
  "evaluate_as_specified request referencePrice =
     (if IsBuyOrder request then
        (StopLossPrice request \<noteq> 0 \<and> referencePrice \<le> StopLossPrice request) \<or>
        (TakeProfitPrice request \<noteq> 0 \<and> referencePrice \<ge> TakeProfitPrice request)
      else
        (StopLossPrice request \<noteq> 0 \<and> referencePrice \<ge> StopLossPrice request) \<or>
        (TakeProfitPrice request \<noteq> 0 \<and> referencePrice \<ge> TakeProfitPrice request))"

text \<open>
  What \<^verbatim>\<open>ProcessOrder\<close> returns when no threshold fires: the order with
  \<^verbatim>\<open>InitialAmount\<close> and \<^verbatim>\<open>FilledAmount\<close> reset goes to
  \<^verbatim>\<open>processMarketOrder\<close> or \<^verbatim>\<open>processLimitOrder\<close>, after the one call of
  \<^verbatim>\<open>GetCurrentPrice\<close>.
\<close>

definition matchPath ::
    "MatchingEngine \<Rightarrow> Order \<Rightarrow> MatchResult \<times> MatchingEngine \<times> pool_call list" where
  "matchPath e order0 =
     (let order = order0\<lparr>InitialAmount := Amount order0, FilledAmount := 0\<rparr> in
      case (if Type order = Market then processMarketOrder e order else processLimitOrder e order)
      of (result, e', calls) \<Rightarrow> (result, e', CallGetCurrentPrice (Asset order) # calls))"

subsection \<open>One iteration of the loop\<close>

text \<open>
  The price test of the loop: the resting order's price is worse than the incoming
  order's limit.
\<close>

definition worseThanLimit :: "Order \<Rightarrow> Order \<Rightarrow> bool" where
  "worseThanLimit order matched \<longleftrightarrow>
     (IsBuyOrder order \<and> Price matched > Price order) \<or>
     (\<not> IsBuyOrder order \<and> Price matched < Price order)"

text \<open>The loop is left at \<open>matched\<close>: by its condition, or by the \<^verbatim>\<open>break\<close>.\<close>

definition loopExit :: "Order \<Rightarrow> Order \<Rightarrow> loop_vars \<Rightarrow> bool" where
  "loopExit order matched v \<longleftrightarrow>
     \<not> remainingAmount v > 0 \<or>
     (FilledAmount matched < Amount matched \<and> Type order = Limit \<and> worseThanLimit order matched)"

text \<open>
  The amount an iteration that does not leave the loop fills at \<open>matched\<close> (0 when it
  skips the order), and the variables after it.
\<close>

definition iterAmount :: "Order \<Rightarrow> loop_vars \<Rightarrow> real" where
  "iterAmount matched v =
     (if FilledAmount matched \<ge> Amount matched then 0
      else if min_f (remainingAmount v) (Amount matched - FilledAmount matched) > 0
      then min_f (remainingAmount v) (Amount matched - FilledAmount matched) else 0)"

definition iterVars :: "Order \<Rightarrow> loop_vars \<Rightarrow> loop_vars" where
  "iterVars matched v =
     v\<lparr>remainingAmount := remainingAmount v - iterAmount matched v,
       filledAmount := filledAmount v + iterAmount matched v,
       orderbookFilled := orderbookFilled v + iterAmount matched v,
       weightedSum := weightedSum v + iterAmount matched v * Price matched\<rparr>"

subsection \<open>The book\<close>

text \<open>The side of the book an incoming order would rest on.\<close>

definition ownSide :: "MatchingEngine \<Rightarrow> Order \<Rightarrow> Order list" where
  "ownSide e order =
     (if IsBuyOrder order then BuyOrders (orderBook e) else SellOrders (orderBook e))"

text \<open>A resting order has capacity left; every order of a list has.\<close>

definition hasCapacity :: "Order \<Rightarrow> bool" where
  "hasCapacity order \<longleftrightarrow> FilledAmount order < Amount order"

definition liveBook :: "MatchingEngine \<Rightarrow> bool" where
  "liveBook e \<longleftrightarrow>
     list_all hasCapacity (BuyOrders (orderBook e)) \<and>
     list_all hasCapacity (SellOrders (orderBook e))"

text \<open>
  The engines a program can hold: \<^verbatim>\<open>NewMatchingEngine\<close> builds one with an empty
  book, \<^verbatim>\<open>ProcessOrder\<close> that returns takes it to the next. The pool is a remote
  service whose answers may differ from one order to the next, which is a change of the
  client between two calls.
\<close>

inductive reachable :: "MatchingEngine \<Rightarrow> bool" where
  reachable_new: "reachable (NewMatchingEngine lp)"
| reachable_pool: "reachable e \<Longrightarrow> reachable (e\<lparr>liquidityPool := lp\<rparr>)"
| reachable_process:
    "reachable e \<Longrightarrow> ProcessOrder e order = Inr (result, e', calls) \<Longrightarrow> reachable e'"

text \<open>All resting orders, and the same order up to a larger filled amount.\<close>

definition restingOrders :: "MatchingEngine \<Rightarrow> Order list" where
  "restingOrders e = BuyOrders (orderBook e) @ SellOrders (orderBook e)"

definition filledMore :: "Order \<Rightarrow> Order \<Rightarrow> bool" where
  "filledMore matched matched' \<longleftrightarrow>
     matched' = matched\<lparr>FilledAmount := FilledAmount matched'\<rparr> \<and>
     FilledAmount matched \<le> FilledAmount matched'"

text \<open>What the walk of a limit order may do to a resting order: leave it as it is, or
  fill it when its price is not worse than the limit.\<close>

definition limitFill :: "Order \<Rightarrow> Order \<Rightarrow> Order \<Rightarrow> bool" where
  "limitFill order matched matched' \<longleftrightarrow>
     matched' = matched \<or> (\<not> worseThanLimit order matched \<and> filledMore matched matched')"

text \<open>The variables at the start of the loop, and the loop over the sorted side.\<close>

definition startVars :: "Order \<Rightarrow> loop_vars" where
  "startVars order =
     \<lparr>remainingAmount = Amount order, filledAmount = 0, weightedSum = 0, orderbookFilled = 0\<rparr>"

definition walk :: "Order \<Rightarrow> Order list \<Rightarrow> Order list \<times> loop_vars" where
  "walk order book = matchLoop order (sortByPrice (IsBuyOrder order) book) (startVars order)"

section \<open>Inputs of the test file\<close>

text \<open>
  The orders and the mock pool of \<^verbatim>\<open>matching_test.go\<close>, used to run the model.
  A Go struct literal leaves the fields it does not name at their zero value.
\<close>

definition zeroOrder :: Order where
  "zeroOrder = \<lparr>ID = [], Price = 0, Amount = 0, InitialAmount = 0, FilledAmount = 0,
     Type = Market, IsBuyOrder = False, Trader = [], Asset = [], Leverage = 0,
     MarginType = Cross, Expiration = 0, StopLossPrice = 0, TakeProfitPrice = 0\<rparr>"

definition MockLiquidityPool :: "bool \<Rightarrow> LiquidityPoolClient" where
  "MockLiquidityPool shouldFail =
     \<lparr>GetAvailableLiquidity = (\<lambda>isBuyOrder. if shouldFail then (0, False) else (1000, True)),
      TradeWithPool = (\<lambda>orderId amount isBuy. if shouldFail then (0, None) else (amount / 2, None)),
      GetCurrentPrice = (\<lambda>asset. 100)\<rparr>"

definition MockLiquidityPoolAt :: "real \<Rightarrow> LiquidityPoolClient" where
  "MockLiquidityPoolAt price = (MockLiquidityPool False)\<lparr>GetCurrentPrice := (\<lambda>asset. price)\<rparr>"

definition UnreachablePool :: LiquidityPoolClient where
  "UnreachablePool =
     \<lparr>GetAvailableLiquidity = (\<lambda>isBuyOrder. (0, False)),
      TradeWithPool = (\<lambda>orderId amount isBuy. (0, Some ''connection refused'')),
      GetCurrentPrice = (\<lambda>asset. Client_GetCurrentPrice RequestFailed)\<rparr>"

definition engineWith :: "LiquidityPoolClient \<Rightarrow> Order list \<Rightarrow> Order list \<Rightarrow> MatchingEngine" where
  "engineWith lp buys sells =
     \<lparr>orderBook = \<lparr>BuyOrders = buys, SellOrders = sells\<rparr>, liquidityPool = Some lp\<rparr>"

definition sell_1 :: Order where
  "sell_1 = zeroOrder\<lparr>ID := ''sell-1'', Price := 100, Amount := 10, InitialAmount := 10,
      Type := Limit, IsBuyOrder := False\<rparr>"

definition buy_sl_1 :: Order where
  "buy_sl_1 = zeroOrder\<lparr>ID := ''buy-sl-1'', Price := 100, Amount := 5, InitialAmount := 5,
      Type := Limit, IsBuyOrder := True, StopLossPrice := 95, Asset := ''BTC''\<rparr>"

definition sell_tp_1 :: Order where
  "sell_tp_1 = zeroOrder\<lparr>ID := ''sell-tp-1'', Price := 100, Amount := 5, InitialAmount := 5,
      Type := Limit, IsBuyOrder := False, TakeProfitPrice := 105, Asset := ''BTC''\<rparr>"

text \<open>\<^verbatim>\<open>TestPartialFillWithLiquidityPool\<close>.\<close>

definition sell_2 :: Order where
  "sell_2 = zeroOrder\<lparr>ID := ''sell-2'', Price := 100, Amount := 5, InitialAmount := 5,
      Type := Limit, IsBuyOrder := False\<rparr>"

definition buy_2 :: Order where
  "buy_2 = zeroOrder\<lparr>ID := ''buy-2'', Amount := 20, InitialAmount := 20,
      Type := Market, IsBuyOrder := True\<rparr>"

text \<open>\<^verbatim>\<open>TestComplexOrderScenario\<close>. The test sets \<^verbatim>\<open>Expiration\<close> from the clock;
  the engine never reads the field, and the model takes 3600.\<close>

definition complex_sell_1 :: Order where
  "complex_sell_1 = zeroOrder\<lparr>ID := ''sell-1'', Price := 100, Amount := 5, InitialAmount := 5,
      Type := Limit, IsBuyOrder := False, Asset := ''BTC'', Leverage := 2,
      MarginType := Cross, Expiration := 3600\<rparr>"

definition complex_sell_2 :: Order where
  "complex_sell_2 = zeroOrder\<lparr>ID := ''sell-2'', Price := 102, Amount := 7, InitialAmount := 7,
      Type := Limit, IsBuyOrder := False, Asset := ''BTC'', Leverage := 1,
      MarginType := Isolated, Expiration := 3600\<rparr>"

definition complex_buy_1 :: Order where
  "complex_buy_1 = zeroOrder\<lparr>ID := ''buy-1'', Amount := 15, InitialAmount := 15,
      Type := Market, IsBuyOrder := True, Asset := ''BTC'', Leverage := 2,
      MarginType := Cross\<rparr>"

text \<open>\<^verbatim>\<open>TestMarketOrderMatching\<close>, \<^verbatim>\<open>TestLimitOrderMatching\<close> and
  \<^verbatim>\<open>TestLargeMarketOrderWithMultipleMatches\<close>.\<close>

definition buy_1 :: Order where
  "buy_1 = zeroOrder\<lparr>ID := ''buy-1'', Amount := 5, InitialAmount := 5,
      Type := Market, IsBuyOrder := True\<rparr>"

definition buy_3 :: Order where
  "buy_3 = zeroOrder\<lparr>ID := ''buy-3'', Price := 100, Amount := 5, InitialAmount := 5,
      Type := Limit, IsBuyOrder := True\<rparr>"

definition sell_4 :: Order where
  "sell_4 = zeroOrder\<lparr>ID := ''sell-4'', Price := 100, Amount := 5, InitialAmount := 5,
      Type := Limit, IsBuyOrder := False\<rparr>"

definition sell_5 :: Order where
  "sell_5 = zeroOrder\<lparr>ID := ''sell-5'', Price := 101, Amount := 7, InitialAmount := 7,
      Type := Limit, IsBuyOrder := False\<rparr>"


section \<open>Basic facts\<close>

lemma min_f_le: "min_f a b \<le> a"
  by (simp add: min_f_def)

lemma check_prepared:
  "checkStopLossAndTakeProfit (order\<lparr>InitialAmount := a, FilledAmount := b\<rparr>) p =
   checkStopLossAndTakeProfit order p"
  by (simp add: checkStopLossAndTakeProfit_def)

lemma ProcessOrder_fires:
  assumes "liquidityPool e = Some lp"
    and "checkStopLossAndTakeProfit order (GetCurrentPrice lp (Asset order))"
  shows "ProcessOrder e order =
     Inr (\<lparr>Success = True, ResultFilledAmount = Amount order, RemainingAmount = 0,
           ExecutedPrice = GetCurrentPrice lp (Asset order),
           Message = StopLossTakeProfitMessage (GetCurrentPrice lp (Asset order))\<rparr>,
          e, [CallGetCurrentPrice (Asset order)])"
  using assms by (simp add: ProcessOrder_def check_prepared Let_def)

lemma ProcessOrder_no_threshold:
  "liquidityPool e = Some lp \<Longrightarrow>
   \<not> checkStopLossAndTakeProfit order (GetCurrentPrice lp (Asset order)) \<Longrightarrow>
   ProcessOrder e order = Inr (matchPath e order)"
  by (simp add: ProcessOrder_def matchPath_def check_prepared Let_def split: prod.splits)

section \<open>The loop of matchOrders\<close>

text \<open>The loop, one iteration at a time: it leaves at \<open>matched\<close>, or it fills
  \<open>iterAmount\<close> there and goes on.\<close>

lemma matchLoop_Cons:
  "matchLoop order (matched # rest) v =
     (if loopExit order matched v then (matched # rest, v)
      else case matchLoop order rest (iterVars matched v) of
             (rest', v') \<Rightarrow>
               (matched\<lparr>FilledAmount := FilledAmount matched + iterAmount matched v\<rparr> # rest', v'))"
proof (cases "remainingAmount v > 0")
  case False
  then show ?thesis by (simp add: loopExit_def)
next
  case pos: True
  show ?thesis
  proof (cases "FilledAmount matched \<ge> Amount matched")
    case True
    with pos have "iterAmount matched v = 0" "iterVars matched v = v" "\<not> loopExit order matched v"
      by (simp_all add: iterAmount_def iterVars_def loopExit_def)
    with pos True show ?thesis by simp
  next
    case live: False
    show ?thesis
    proof (cases "Type order = Limit \<and> worseThanLimit order matched")
      case True
      with pos live have "loopExit order matched v" by (simp add: loopExit_def)
      with pos live True show ?thesis by (simp add: worseThanLimit_def)
    next
      case ok: False
      with pos live have noexit: "\<not> loopExit order matched v" by (auto simp add: loopExit_def)
      show ?thesis
      proof (cases "min_f (remainingAmount v) (Amount matched - FilledAmount matched) > 0")
        case True
        with live have "iterAmount matched v =
            min_f (remainingAmount v) (Amount matched - FilledAmount matched)"
          by (simp add: iterAmount_def)
        with pos live ok noexit True show ?thesis
          by (auto simp add: iterVars_def worseThanLimit_def Let_def)
      next
        case False
        with live have "iterAmount matched v = 0" "iterVars matched v = v"
          by (simp_all add: iterAmount_def iterVars_def)
        with pos live ok noexit False show ?thesis
          by (auto simp add: worseThanLimit_def Let_def)
      qed
    qed
  qed
qed

lemma matchLoop_Cons_proj:
  "matchLoop order (matched # rest) v =
     (if loopExit order matched v then (matched # rest, v)
      else (matched\<lparr>FilledAmount := FilledAmount matched + iterAmount matched v\<rparr> #
              fst (matchLoop order rest (iterVars matched v)),
            snd (matchLoop order rest (iterVars matched v))))"
  by (simp add: matchLoop_Cons del: matchLoop.simps split: prod.splits)


lemma iterAmount_nonneg: "0 \<le> iterAmount matched v"
  by (simp add: iterAmount_def)

lemma matchLoop_conserve:
  "matchLoop order ms v = (ms', v') \<Longrightarrow>
   remainingAmount v' + filledAmount v' = remainingAmount v + filledAmount v"
proof (induction ms arbitrary: v ms' v')
  case Nil
  then show ?case by simp
next
  case (Cons matched rest)
  show ?case
  proof (cases "loopExit order matched v")
    case True
    with Cons.prems show ?thesis by (simp add: matchLoop_Cons del: matchLoop.simps)
  next
    case False
    obtain rest' where "matchLoop order rest (iterVars matched v) = (rest', v')"
      using Cons.prems False
      by (auto simp add: matchLoop_Cons simp del: matchLoop.simps split: prod.splits)
    from Cons.IH [OF this] show ?thesis by (simp add: iterVars_def)
  qed
qed

lemma matchOrders_walk:
  "matchOrders order book =
     (\<lparr>Success = (remainingAmount (snd (walk order book)) = 0),
       ResultFilledAmount = filledAmount (snd (walk order book)),
       RemainingAmount = remainingAmount (snd (walk order book)),
       ExecutedPrice = (if filledAmount (snd (walk order book)) > 0
                        then weightedSum (snd (walk order book)) / filledAmount (snd (walk order book))
                        else 0),
       Message = MatchMessage (ID order) (InitialAmount order) (filledAmount (snd (walk order book)))
                   (orderbookFilled (snd (walk order book))) 0\<rparr>,
      cleanupOrders (fst (walk order book)))"
  by (simp add: matchOrders_def walk_def startVars_def split: prod.splits)

section \<open>The walk of a limit order\<close>

lemma filledMore_refl: "filledMore m m"
  by (simp add: filledMore_def)

lemma matchLoop_filledMore:
  "list_all2 filledMore ms (fst (matchLoop order ms v))"
proof (induction ms arbitrary: v)
  case Nil
  show ?case by simp
next
  case (Cons matched rest)
  show ?case
  proof (cases "loopExit order matched v")
    case True
    then show ?thesis
      by (simp add: matchLoop_Cons_proj list_all2_refl filledMore_refl del: matchLoop.simps)
  next
    case False
    with Cons.IH [of "iterVars matched v"] iterAmount_nonneg [of matched v] show ?thesis
      by (simp add: matchLoop_Cons_proj filledMore_def del: matchLoop.simps)
  qed
qed

lemma iterAmount_pos_not_worse:
  assumes "Type order = Limit" and "\<not> loopExit order matched v" and "iterAmount matched v \<noteq> 0"
  shows "\<not> worseThanLimit order matched"
proof -
  from assms(3) have "FilledAmount matched < Amount matched"
    by (auto simp add: iterAmount_def split: if_splits)
  with assms(1,2) show ?thesis by (simp add: loopExit_def)
qed

lemma matchLoop_limitFill:
  assumes "Type order = Limit"
  shows "list_all2 (limitFill order) ms (fst (matchLoop order ms v))"
proof (induction ms arbitrary: v)
  case Nil
  show ?case by simp
next
  case (Cons matched rest)
  show ?case
  proof (cases "loopExit order matched v")
    case True
    then show ?thesis
      by (simp add: matchLoop_Cons_proj list_all2_refl limitFill_def del: matchLoop.simps)
  next
    case False
    have "limitFill order matched
            (matched\<lparr>FilledAmount := FilledAmount matched + iterAmount matched v\<rparr>)"
    proof (cases "iterAmount matched v = 0")
      case True
      then show ?thesis by (simp add: limitFill_def)
    next
      case pos: False
      from iterAmount_pos_not_worse [OF assms False pos] iterAmount_nonneg [of matched v]
      show ?thesis by (simp add: limitFill_def filledMore_def)
    qed
    with False Cons.IH [of "iterVars matched v"] show ?thesis
      by (simp add: matchLoop_Cons_proj del: matchLoop.simps)
  qed
qed

lemma matchLoop_break:
  assumes "Type order = Limit" and "hasCapacity resting" and "worseThanLimit order resting"
  shows "matchLoop order (pre @ resting # post) v =
           (fst (matchLoop order pre v) @ resting # post, snd (matchLoop order pre v))"
proof (induction pre arbitrary: v)
  case Nil
  from assms have "loopExit order resting v" by (simp add: loopExit_def hasCapacity_def)
  then show ?case by (simp add: matchLoop_Cons_proj del: matchLoop.simps(2))
next
  case (Cons matched pre)
  show ?case
  proof (cases "loopExit order matched v")
    case True
    then show ?thesis
      by (simp add: matchLoop_Cons_proj del: matchLoop.simps)
  next
    case False
    with Cons.IH [of "iterVars matched v"] show ?thesis
      by (simp add: matchLoop_Cons_proj del: matchLoop.simps)
  qed
qed

lemma iterAmount_price_buy:
  assumes "Type order = Limit" and "\<not> loopExit order matched v" and "IsBuyOrder order"
  shows "iterAmount matched v * Price matched \<le> iterAmount matched v * Price order"
proof (cases "iterAmount matched v = 0")
  case True
  then show ?thesis by simp
next
  case False
  from iterAmount_pos_not_worse [OF assms(1,2) False] assms(3)
  have "Price matched \<le> Price order" by (simp add: worseThanLimit_def)
  with iterAmount_nonneg [of matched v] show ?thesis by (simp add: mult_left_mono)
qed

lemma iterAmount_price_sell:
  assumes "Type order = Limit" and "\<not> loopExit order matched v" and "\<not> IsBuyOrder order"
  shows "iterAmount matched v * Price order \<le> iterAmount matched v * Price matched"
proof (cases "iterAmount matched v = 0")
  case True
  then show ?thesis by simp
next
  case False
  from iterAmount_pos_not_worse [OF assms(1,2) False] assms(3)
  have "Price order \<le> Price matched" by (simp add: worseThanLimit_def)
  with iterAmount_nonneg [of matched v] show ?thesis by (simp add: mult_left_mono)
qed

lemma matchLoop_weightedSum_buy:
  assumes "Type order = Limit" and "IsBuyOrder order"
  shows "weightedSum (snd (matchLoop order ms v)) - weightedSum v \<le>
           (filledAmount (snd (matchLoop order ms v)) - filledAmount v) * Price order"
proof (induction ms arbitrary: v)
  case Nil
  show ?case by simp
next
  case (Cons matched rest)
  show ?case
  proof (cases "loopExit order matched v")
    case True
    then show ?thesis by (simp add: matchLoop_Cons_proj del: matchLoop.simps)
  next
    case False
    from iterAmount_price_buy [OF assms(1) False assms(2)] Cons.IH [of "iterVars matched v"] False
    show ?thesis
      by (simp add: matchLoop_Cons_proj iterVars_def algebra_simps del: matchLoop.simps)
  qed
qed

lemma matchLoop_weightedSum_sell:
  assumes "Type order = Limit" and "\<not> IsBuyOrder order"
  shows "(filledAmount (snd (matchLoop order ms v)) - filledAmount v) * Price order \<le>
           weightedSum (snd (matchLoop order ms v)) - weightedSum v"
proof (induction ms arbitrary: v)
  case Nil
  show ?case by simp
next
  case (Cons matched rest)
  show ?case
  proof (cases "loopExit order matched v")
    case True
    then show ?thesis by (simp add: matchLoop_Cons_proj del: matchLoop.simps)
  next
    case False
    from iterAmount_price_sell [OF assms(1) False assms(2)] Cons.IH [of "iterVars matched v"] False
    show ?thesis
      by (simp add: matchLoop_Cons_proj iterVars_def algebra_simps del: matchLoop.simps)
  qed
qed

lemma matchOrders_limit_price_buy:
  assumes "Type order = Limit" and "IsBuyOrder order"
    and "0 < ResultFilledAmount (fst (matchOrders order book))"
  shows "ExecutedPrice (fst (matchOrders order book)) \<le> Price order"
proof -
  from assms(3) have pos: "0 < filledAmount (snd (walk order book))"
    by (simp add: matchOrders_walk)
  from matchLoop_weightedSum_buy [OF assms(1,2), of "sortByPrice (IsBuyOrder order) book" "startVars order"]
  have "weightedSum (snd (walk order book)) \<le> Price order * filledAmount (snd (walk order book))"
    by (simp add: walk_def startVars_def mult.commute)
  with pos show ?thesis
    by (simp add: matchOrders_walk pos_divide_le_eq)
qed

lemma matchOrders_limit_price_sell:
  assumes "Type order = Limit" and "\<not> IsBuyOrder order"
    and "0 < ResultFilledAmount (fst (matchOrders order book))"
  shows "Price order \<le> ExecutedPrice (fst (matchOrders order book))"
proof -
  from assms(3) have pos: "0 < filledAmount (snd (walk order book))"
    by (simp add: matchOrders_walk)
  from matchLoop_weightedSum_sell [OF assms(1,2), of "sortByPrice (IsBuyOrder order) book" "startVars order"]
  have "Price order * filledAmount (snd (walk order book)) \<le> weightedSum (snd (walk order book))"
    by (simp add: walk_def startVars_def mult.commute)
  with pos show ?thesis
    by (simp add: matchOrders_walk pos_le_divide_eq)
qed

lemma sortByPrice_single [simp]: "sortByPrice b [resting] = [resting]"
  by (simp add: sortByPrice_def)

lemma matchOrders_single_worse:
  assumes "Type order = Limit" and "hasCapacity resting" and "worseThanLimit order resting"
  shows "matchOrders order [resting] =
     (\<lparr>Success = (Amount order = 0), ResultFilledAmount = 0, RemainingAmount = Amount order,
       ExecutedPrice = 0, Message = MatchMessage (ID order) (InitialAmount order) 0 0 0\<rparr>,
      [resting])"
proof -
  have "matchLoop order ([] @ resting # []) v = (fst (matchLoop order [] v) @ resting # [], snd (matchLoop order [] v))" for v
    by (rule matchLoop_break [OF assms])
  then have "matchLoop order [resting] v = ([resting], v)" for v
    by simp
  with assms(2) show ?thesis
    by (simp add: matchOrders_walk walk_def startVars_def cleanupOrders_def hasCapacity_def
        del: matchLoop.simps)
qed

section \<open>Runs of the test inputs\<close>

lemmas run_defs = ProcessOrder_def processMarketOrder_def processLimitOrder_def matchOrders_def
  tryLiquidityPool_def matchingSide_def storeMatchingSide_def appendOwnSide_def addPoolFill_def
  sortByPrice_def cleanupOrders_def checkStopLossAndTakeProfit_def min_f_def engineWith_def
  MockLiquidityPool_def MockLiquidityPoolAt_def UnreachablePool_def Client_GetCurrentPrice_def
  NewMatchingEngine_def zeroOrder_def Let_def

text \<open>\<^verbatim>\<open>TestPartialFillWithLiquidityPool\<close>: 5 from the book, half of the other 15 from
  the pool.\<close>

lemma run_partial_fill:
  "ProcessOrder (engineWith (MockLiquidityPool False) [] [sell_2]) buy_2 =
     Inr (\<lparr>Success = False, ResultFilledAmount = 25 / 2, RemainingAmount = 15 / 2,
           ExecutedPrice = 100, Message = MatchMessage ''buy-2'' 20 5 5 0\<rparr>,
          engineWith (MockLiquidityPool False) [] [],
          [CallGetCurrentPrice [], CallGetAvailableLiquidity True,
           CallTradeWithPool ''buy-2'' 15 True])"
  by (simp add: run_defs sell_2_def buy_2_def)

text \<open>A limit sell on a new engine whose pool has no liquidity rests; a market buy then
  fills half of it.\<close>

lemma run_limit_sell_rests:
  "ProcessOrder (NewMatchingEngine (Some (MockLiquidityPool True))) sell_1 =
     Inr (\<lparr>Success = False, ResultFilledAmount = 0, RemainingAmount = 10, ExecutedPrice = 0,
           Message = MatchMessage ''sell-1'' 10 0 0 0\<rparr>,
          engineWith (MockLiquidityPool True) [] [sell_1],
          [CallGetCurrentPrice [], CallGetAvailableLiquidity False])"
  by (simp add: run_defs sell_1_def)

lemma run_market_buy:
  "ProcessOrder (engineWith (MockLiquidityPool True) [] [sell_1]) buy_1 =
     Inr (\<lparr>Success = True, ResultFilledAmount = 5, RemainingAmount = 0, ExecutedPrice = 100,
           Message = MatchMessage ''buy-1'' 5 5 5 0\<rparr>,
          engineWith (MockLiquidityPool True) [] [sell_1\<lparr>FilledAmount := 5\<rparr>],
          [CallGetCurrentPrice []])"
  by (simp add: run_defs sell_1_def buy_1_def)

lemma reachable_resting_sell: "reachable (engineWith (MockLiquidityPool True) [] [sell_1])"
  using reachable_process [OF reachable_new run_limit_sell_rests] .

lemma reachable_partly_filled:
  "reachable (engineWith (MockLiquidityPool True) [] [sell_1\<lparr>FilledAmount := 5\<rparr>])"
  using reachable_process [OF reachable_resting_sell run_market_buy] .

text \<open>A limit sell of 10 on an empty book, the pool filling half of what it is asked.\<close>

lemma run_limit_sell_half:
  "ProcessOrder (engineWith (MockLiquidityPool False) [] []) sell_1 =
     Inr (\<lparr>Success = False, ResultFilledAmount = 5, RemainingAmount = 5, ExecutedPrice = 0,
           Message = MatchMessage ''sell-1'' 10 0 0 0\<rparr>,
          engineWith (MockLiquidityPool False) [] [sell_1\<lparr>Amount := 5\<rparr>],
          [CallGetCurrentPrice [], CallGetAvailableLiquidity False,
           CallTradeWithPool ''sell-1'' 10 False])"
  by (simp add: run_defs sell_1_def)

section \<open>The protective thresholds\<close>

text \<open>
  Claim C4, as the specification states it, fails for a threshold below 0: the
  specification makes only the threshold 0 inactive, the source tests
  \<^verbatim>\<open>StopLossPrice > 0\<close> and \<^verbatim>\<open>TakeProfitPrice > 0\<close>. A sell with the stop-loss
  -1 at the reference price 100 fires by the stated rule (100 is at least -1) and does
  not fire in \<^verbatim>\<open>checkStopLossAndTakeProfit\<close>.
\<close>

theorem negative_threshold_counterexample:
  "StopLossPrice (sell_tp_1\<lparr>StopLossPrice := - 1, TakeProfitPrice := 0\<rparr>) \<noteq> 0 \<and>
   evaluate_as_specified (sell_tp_1\<lparr>StopLossPrice := - 1, TakeProfitPrice := 0\<rparr>) 100 \<and>
   \<not> checkStopLossAndTakeProfit (sell_tp_1\<lparr>StopLossPrice := - 1, TakeProfitPrice := 0\<rparr>) 100"
  by (simp add: evaluate_as_specified_def checkStopLossAndTakeProfit_def sell_tp_1_def zeroOrder_def)

text \<open>
  Claim C4, amended: a threshold is active when it is strictly positive.
  \<^verbatim>\<open>checkStopLossAndTakeProfit\<close> returns true exactly when an active threshold
  fires, with these comparisons: for a buy the stop-loss fires when the reference price
  is at most the stop-loss threshold and the take-profit when it is at least the
  take-profit threshold; for a sell both fire when the reference price is at least the
  threshold. A threshold of 0 never fires: with the stop-loss at 0 only the take-profit
  decides, with the take-profit at 0 only the stop-loss, with both at 0 the check is
  false. Where no threshold is negative the check is the rule as the specification
  words it.
\<close>

theorem checkStopLossAndTakeProfit_fires_iff:
  "(checkStopLossAndTakeProfit order referencePrice \<longleftrightarrow>
      stopLossFires order referencePrice \<or> takeProfitFires order referencePrice) \<and>
   (stopLossFires order referencePrice \<longleftrightarrow>
      0 < StopLossPrice order \<and>
      (if IsBuyOrder order then referencePrice \<le> StopLossPrice order
       else referencePrice \<ge> StopLossPrice order)) \<and>
   (takeProfitFires order referencePrice \<longleftrightarrow>
      0 < TakeProfitPrice order \<and> referencePrice \<ge> TakeProfitPrice order) \<and>
   (checkStopLossAndTakeProfit (order\<lparr>StopLossPrice := 0\<rparr>) referencePrice \<longleftrightarrow>
      takeProfitFires order referencePrice) \<and>
   (checkStopLossAndTakeProfit (order\<lparr>TakeProfitPrice := 0\<rparr>) referencePrice \<longleftrightarrow>
      stopLossFires order referencePrice) \<and>
   \<not> checkStopLossAndTakeProfit (order\<lparr>StopLossPrice := 0, TakeProfitPrice := 0\<rparr>) referencePrice \<and>
   (0 \<le> StopLossPrice order \<and> 0 \<le> TakeProfitPrice order \<longrightarrow>
      checkStopLossAndTakeProfit order referencePrice = evaluate_as_specified order referencePrice)"
  by (auto simp add: checkStopLossAndTakeProfit_def stopLossFires_def takeProfitFires_def
      evaluate_as_specified_def)

text \<open>The two checks of \<^verbatim>\<open>TestStopLossAndTakeProfit\<close>, and a sell whose price is below
  its stop-loss.\<close>

theorem checkStopLossAndTakeProfit_fires_iff_witness:
  "0 \<le> StopLossPrice buy_sl_1 \<and> 0 \<le> TakeProfitPrice buy_sl_1 \<and>
   checkStopLossAndTakeProfit buy_sl_1 94 \<and> evaluate_as_specified buy_sl_1 94 \<and>
   stopLossFires buy_sl_1 94 \<and> \<not> takeProfitFires buy_sl_1 94 \<and>
   checkStopLossAndTakeProfit sell_tp_1 106 \<and> takeProfitFires sell_tp_1 106 \<and>
   \<not> stopLossFires sell_tp_1 106"
proof -
  have thresholds: "0 \<le> StopLossPrice buy_sl_1 \<and> 0 \<le> TakeProfitPrice buy_sl_1"
    by (simp add: buy_sl_1_def zeroOrder_def)
  have buy: "stopLossFires buy_sl_1 94" "\<not> takeProfitFires buy_sl_1 94"
    by (simp_all add: stopLossFires_def takeProfitFires_def buy_sl_1_def zeroOrder_def)
  have sell: "takeProfitFires sell_tp_1 106" "\<not> stopLossFires sell_tp_1 106"
    by (simp_all add: stopLossFires_def takeProfitFires_def sell_tp_1_def zeroOrder_def)
  from checkStopLossAndTakeProfit_fires_iff [of buy_sl_1 94] buy thresholds
  have "checkStopLossAndTakeProfit buy_sl_1 94" "evaluate_as_specified buy_sl_1 94"
    by blast+
  moreover from checkStopLossAndTakeProfit_fires_iff [of sell_tp_1 106] sell
  have "checkStopLossAndTakeProfit sell_tp_1 106"
    by blast
  ultimately show ?thesis
    using thresholds buy sell by blast
qed

text \<open>
  Claim C5. When the check fires for an incoming order (on an engine with a pool),
  \<^verbatim>\<open>ProcessOrder\<close> returns an outcome with the whole amount of the order filled,
  nothing remaining and the reference price as executed price; the engine, and so both
  sides of the book, is returned unchanged, and the only call to the pool is the lookup
  of the price: the order reaches neither the book nor the fallback.
\<close>

theorem ProcessOrder_threshold_execution:
  assumes "liquidityPool e = Some lp"
    and "checkStopLossAndTakeProfit order (GetCurrentPrice lp (Asset order))"
  shows "ProcessOrder e order =
     Inr (\<lparr>Success = True, ResultFilledAmount = Amount order, RemainingAmount = 0,
           ExecutedPrice = GetCurrentPrice lp (Asset order),
           Message = StopLossTakeProfitMessage (GetCurrentPrice lp (Asset order))\<rparr>,
          e, [CallGetCurrentPrice (Asset order)])"
  using assms by (rule ProcessOrder_fires)

text \<open>Scenario 4 of the specification: a buy with stop-loss 95 at reference price 94, with
  a sell resting in the book.\<close>

theorem ProcessOrder_threshold_execution_witness:
  "liquidityPool (engineWith (MockLiquidityPoolAt 94) [] [sell_1]) = Some (MockLiquidityPoolAt 94) \<and>
   checkStopLossAndTakeProfit buy_sl_1 (GetCurrentPrice (MockLiquidityPoolAt 94) (Asset buy_sl_1)) \<and>
   ProcessOrder (engineWith (MockLiquidityPoolAt 94) [] [sell_1]) buy_sl_1 =
     Inr (\<lparr>Success = True, ResultFilledAmount = 5, RemainingAmount = 0, ExecutedPrice = 94,
           Message = StopLossTakeProfitMessage 94\<rparr>,
          engineWith (MockLiquidityPoolAt 94) [] [sell_1], [CallGetCurrentPrice ''BTC''])"
proof -
  have pool: "liquidityPool (engineWith (MockLiquidityPoolAt 94) [] [sell_1]) = Some (MockLiquidityPoolAt 94)"
    by (simp add: engineWith_def)
  have fires: "checkStopLossAndTakeProfit buy_sl_1 (GetCurrentPrice (MockLiquidityPoolAt 94) (Asset buy_sl_1))"
    by (simp add: checkStopLossAndTakeProfit_def buy_sl_1_def zeroOrder_def MockLiquidityPoolAt_def)
  show ?thesis
    using pool fires ProcessOrder_threshold_execution [OF pool fires]
    by (simp add: buy_sl_1_def zeroOrder_def MockLiquidityPoolAt_def)
qed

text \<open>
  Claim C3, as the specification states it, fails: with the price lookup failing, the
  client returns 0, and a buy with a positive stop-loss is executed by the threshold
  check at price 0.
\<close>

theorem sentinel_price_counterexample:
  "GetCurrentPrice UnreachablePool (Asset buy_sl_1) = 0 \<and>
   ProcessOrder (engineWith UnreachablePool [] [sell_1]) buy_sl_1 =
     Inr (\<lparr>Success = True, ResultFilledAmount = 5, RemainingAmount = 0, ExecutedPrice = 0,
           Message = StopLossTakeProfitMessage 0\<rparr>,
          engineWith UnreachablePool [] [sell_1], [CallGetCurrentPrice ''BTC''])"
  by (simp add: ProcessOrder_def engineWith_def UnreachablePool_def Client_GetCurrentPrice_def
      checkStopLossAndTakeProfit_def buy_sl_1_def zeroOrder_def Let_def)

text \<open>
  Claim C3, amended. When the price lookup returns 0, \<^verbatim>\<open>ProcessOrder\<close> does not
  panic, and the check fires exactly for a buy with a positive stop-loss, which is
  reported executed at price 0 with the book unchanged. For every other order (a sell,
  or a buy whose stop-loss is not positive) no threshold execution takes place: the
  order goes through the matching of \<^verbatim>\<open>processMarketOrder\<close> or
  \<^verbatim>\<open>processLimitOrder\<close>.
\<close>

theorem sentinel_price_threshold:
  assumes "liquidityPool e = Some lp" and "GetCurrentPrice lp (Asset order) = 0"
  shows "(checkStopLossAndTakeProfit order (GetCurrentPrice lp (Asset order)) \<longleftrightarrow>
            IsBuyOrder order \<and> 0 < StopLossPrice order) \<and>
         (if IsBuyOrder order \<and> 0 < StopLossPrice order
          then ProcessOrder e order =
                 Inr (\<lparr>Success = True, ResultFilledAmount = Amount order, RemainingAmount = 0,
                       ExecutedPrice = 0, Message = StopLossTakeProfitMessage 0\<rparr>,
                      e, [CallGetCurrentPrice (Asset order)])
          else ProcessOrder e order = Inr (matchPath e order))"
proof -
  have chk: "checkStopLossAndTakeProfit order 0 \<longleftrightarrow> IsBuyOrder order \<and> 0 < StopLossPrice order"
    by (auto simp add: checkStopLossAndTakeProfit_def)
  show ?thesis
  proof (cases "IsBuyOrder order \<and> 0 < StopLossPrice order")
    case True
    then have "checkStopLossAndTakeProfit order (GetCurrentPrice lp (Asset order))"
      using chk assms(2) by simp
    from ProcessOrder_fires [OF assms(1) this] True chk assms(2) show ?thesis by simp
  next
    case False
    then have "\<not> checkStopLossAndTakeProfit order (GetCurrentPrice lp (Asset order))"
      using chk assms(2) by simp
    from ProcessOrder_no_threshold [OF assms(1) this] False chk assms(2) show ?thesis by auto
  qed
qed

text \<open>A sell with take-profit 105 on an engine whose pool cannot be reached: no threshold
  execution, the order is matched (against an empty book) and rests.\<close>

theorem sentinel_price_threshold_witness:
  "liquidityPool (engineWith UnreachablePool [] []) = Some UnreachablePool \<and>
   GetCurrentPrice UnreachablePool (Asset sell_tp_1) = 0 \<and>
   \<not> checkStopLossAndTakeProfit sell_tp_1 (GetCurrentPrice UnreachablePool (Asset sell_tp_1)) \<and>
   ProcessOrder (engineWith UnreachablePool [] []) sell_tp_1 =
     Inr (\<lparr>Success = False, ResultFilledAmount = 0, RemainingAmount = 5, ExecutedPrice = 0,
           Message = MatchMessage ''sell-tp-1'' 5 0 0 0\<rparr>,
          engineWith UnreachablePool [] [sell_tp_1],
          [CallGetCurrentPrice ''BTC'', CallGetAvailableLiquidity False])"
proof -
  have pool: "liquidityPool (engineWith UnreachablePool [] []) = Some UnreachablePool"
    by (simp add: engineWith_def)
  have price: "GetCurrentPrice UnreachablePool (Asset sell_tp_1) = 0"
    by (simp add: UnreachablePool_def Client_GetCurrentPrice_def)
  have side: "\<not> IsBuyOrder sell_tp_1"
    by (simp add: sell_tp_1_def zeroOrder_def)
  have matched: "matchPath (engineWith UnreachablePool [] []) sell_tp_1 =
      (\<lparr>Success = False, ResultFilledAmount = 0, RemainingAmount = 5, ExecutedPrice = 0,
        Message = MatchMessage ''sell-tp-1'' 5 0 0 0\<rparr>,
       engineWith UnreachablePool [] [sell_tp_1],
       [CallGetCurrentPrice ''BTC'', CallGetAvailableLiquidity False])"
    by (simp add: matchPath_def run_defs sell_tp_1_def)
  show ?thesis
    using pool price side matched sentinel_price_threshold [OF pool price] by simp
qed

section \<open>Conservation of the amount in exact arithmetic\<close>
lemma matchOrders_conserve:
  "matchOrders order ms = (result, ms') \<Longrightarrow>
   ResultFilledAmount result + RemainingAmount result = Amount order"
  by (auto simp add: matchOrders_def split: prod.splits dest!: matchLoop_conserve)

lemma addPoolFill_conserve:
  "ResultFilledAmount (addPoolFill result lpFilled) + RemainingAmount (addPoolFill result lpFilled) =
   ResultFilledAmount result + RemainingAmount result"
  by (simp add: addPoolFill_def)

lemma processMarketOrder_conserve:
  "processMarketOrder e order = (result, e', calls) \<Longrightarrow>
   ResultFilledAmount result + RemainingAmount result = Amount order"
  by (auto simp add: processMarketOrder_def Let_def addPoolFill_conserve
      split: prod.splits if_splits option.splits dest: matchOrders_conserve)

lemma processLimitOrder_conserve:
  "processLimitOrder e order = (result, e', calls) \<Longrightarrow>
   ResultFilledAmount result + RemainingAmount result = Amount order"
  by (auto simp add: processLimitOrder_def Let_def addPoolFill_conserve
      split: prod.splits if_splits option.splits dest: matchOrders_conserve)

lemma matchPath_conserve:
  "matchPath e order = (result, e', calls) \<Longrightarrow>
   ResultFilledAmount result + RemainingAmount result = Amount order"
  by (auto simp add: matchPath_def Let_def split: prod.splits if_splits
      dest: processMarketOrder_conserve processLimitOrder_conserve)

lemma ProcessOrder_returns:
  "liquidityPool e = Some lp \<Longrightarrow> \<exists>result e' calls. ProcessOrder e order = Inr (result, e', calls)"
  by (auto simp add: ProcessOrder_def Let_def split: prod.splits)

text \<open>
  In this model, where amounts are exact reals: on an engine with a pool
  \<^verbatim>\<open>ProcessOrder\<close> returns an outcome, and in it the filled and the remaining amount
  add up to the amount of the incoming order, on the threshold path, after the walk over
  the book, and after the fill by the pool, whatever amount the pool reports. This is
  the identity of claim C2 without its word "exactly" for the program: the source adds
  and subtracts \<^verbatim>\<open>float64\<close> values, each operation rounds, and the rounding is
  outside the model.
\<close>

lemma ProcessOrder_conserves_amount:
  assumes "liquidityPool e = Some lp"
  shows "\<exists>result e' calls. ProcessOrder e order = Inr (result, e', calls) \<and>
           ResultFilledAmount result + RemainingAmount result = Amount order"
proof (cases "checkStopLossAndTakeProfit order (GetCurrentPrice lp (Asset order))")
  case True
  from ProcessOrder_fires [OF assms this] show ?thesis by simp
next
  case False
  obtain result e' calls where mp: "matchPath e order = (result, e', calls)"
    by (cases "matchPath e order") auto
  from ProcessOrder_no_threshold [OF assms False] mp matchPath_conserve [OF mp]
  show ?thesis by simp
qed

text \<open>\<^verbatim>\<open>TestPartialFillWithLiquidityPool\<close>: 12.5 filled and 7.5 remaining of 20.\<close>

lemma ProcessOrder_conserves_amount_run:
  "liquidityPool (engineWith (MockLiquidityPool False) [] [sell_2]) = Some (MockLiquidityPool False) \<and>
   ProcessOrder (engineWith (MockLiquidityPool False) [] [sell_2]) buy_2 =
     Inr (\<lparr>Success = False, ResultFilledAmount = 25 / 2, RemainingAmount = 15 / 2,
           ExecutedPrice = 100, Message = MatchMessage ''buy-2'' 20 5 5 0\<rparr>,
          engineWith (MockLiquidityPool False) [] [],
          [CallGetCurrentPrice [], CallGetAvailableLiquidity True,
           CallTradeWithPool ''buy-2'' 15 True]) \<and>
   (25 / 2 + 15 / 2 :: real) = Amount buy_2"
proof -
  have pool: "liquidityPool (engineWith (MockLiquidityPool False) [] [sell_2]) =
      Some (MockLiquidityPool False)"
    by (simp add: engineWith_def)
  from ProcessOrder_conserves_amount [OF pool, of buy_2] run_partial_fill pool
  show ?thesis by auto
qed

section \<open>The book after an order\<close>

lemma ownSide_storeMatchingSide [simp]:
  "ownSide (storeMatchingSide e order orders) order = ownSide e order"
  by (simp add: ownSide_def storeMatchingSide_def)

lemma matchingSide_storeMatchingSide [simp]:
  "matchingSide (storeMatchingSide e order orders) order = orders"
  by (simp add: matchingSide_def storeMatchingSide_def)

lemma ownSide_appendOwnSide [simp]:
  "ownSide (appendOwnSide e order resting) order = ownSide e order @ [resting]"
  by (simp add: ownSide_def appendOwnSide_def)

lemma matchingSide_appendOwnSide [simp]:
  "matchingSide (appendOwnSide e order resting) order = matchingSide e order"
  by (simp add: matchingSide_def appendOwnSide_def)

lemma liveBook_sides:
  "liveBook e \<longleftrightarrow> list_all hasCapacity (ownSide e order) \<and> list_all hasCapacity (matchingSide e order)"
  by (auto simp add: liveBook_def ownSide_def matchingSide_def)

lemma processMarketOrder_book:
  "processMarketOrder e order = (result, e', calls) \<Longrightarrow>
   e' = storeMatchingSide e order (snd (matchOrders order (matchingSide e order)))"
  by (auto simp add: processMarketOrder_def Let_def split: prod.splits if_splits option.splits)

lemma processLimitOrder_book:
  "processLimitOrder e order = (result, e', calls) \<Longrightarrow>
   e' = (if RemainingAmount result > 0
         then appendOwnSide (storeMatchingSide e order (snd (matchOrders order (matchingSide e order))))
                order (order\<lparr>Amount := RemainingAmount result\<rparr>)
         else storeMatchingSide e order (snd (matchOrders order (matchingSide e order))))"
  by (auto simp add: processLimitOrder_def Let_def split: prod.splits if_splits option.splits)

lemma cleanupOrders_live: "list_all hasCapacity (cleanupOrders orders)"
  by (simp add: cleanupOrders_def hasCapacity_def list_all_iff)

lemma matchOrders_live: "list_all hasCapacity (snd (matchOrders order orders))"
  by (simp add: matchOrders_def cleanupOrders_live split: prod.splits)

lemma processMarketOrder_live:
  assumes "liveBook e" and "processMarketOrder e order = (result, e', calls)"
  shows "liveBook e'"
  using assms(1) processMarketOrder_book [OF assms(2)]
  by (simp add: liveBook_sides [of _ order] matchOrders_live)

lemma processLimitOrder_live:
  assumes "liveBook e" and "FilledAmount order = 0"
    and "processLimitOrder e order = (result, e', calls)"
  shows "liveBook e'"
  using assms(1,2) processLimitOrder_book [OF assms(3)]
  by (simp add: liveBook_sides [of _ order] matchOrders_live hasCapacity_def)

lemma matchPath_live:
  assumes "liveBook e" and "matchPath e order = (result, e', calls)"
  shows "liveBook e'"
proof (cases "Type order = Market")
  case True
  with assms(2) obtain calls' where
    "processMarketOrder e (order\<lparr>InitialAmount := Amount order, FilledAmount := 0\<rparr>) = (result, e', calls')"
    by (auto simp add: matchPath_def Let_def split: prod.splits)
  from processMarketOrder_live [OF assms(1) this] show ?thesis .
next
  case False
  with assms(2) obtain calls' where
    "processLimitOrder e (order\<lparr>InitialAmount := Amount order, FilledAmount := 0\<rparr>) = (result, e', calls')"
    by (auto simp add: matchPath_def Let_def split: prod.splits)
  from processLimitOrder_live [OF assms(1) _ this] show ?thesis by simp
qed

lemma ProcessOrder_cases:
  assumes "ProcessOrder e order = Inr (result, e', calls)"
  obtains (threshold) lp where "liquidityPool e = Some lp"
      "checkStopLossAndTakeProfit order (GetCurrentPrice lp (Asset order))"
      "e' = e" "calls = [CallGetCurrentPrice (Asset order)]"
      "result = \<lparr>Success = True, ResultFilledAmount = Amount order, RemainingAmount = 0,
           ExecutedPrice = GetCurrentPrice lp (Asset order),
           Message = StopLossTakeProfitMessage (GetCurrentPrice lp (Asset order))\<rparr>"
  | (matching) lp where "liquidityPool e = Some lp"
      "\<not> checkStopLossAndTakeProfit order (GetCurrentPrice lp (Asset order))"
      "matchPath e order = (result, e', calls)"
proof -
  from assms obtain lp where lp: "liquidityPool e = Some lp"
    by (cases "liquidityPool e") (auto simp add: ProcessOrder_def Let_def)
  show thesis
  proof (cases "checkStopLossAndTakeProfit order (GetCurrentPrice lp (Asset order))")
    case True
    from ProcessOrder_fires [OF lp True] assms threshold [OF lp True] show thesis by simp
  next
    case False
    from ProcessOrder_no_threshold [OF lp False] assms matching [OF lp False] show thesis by simp
  qed
qed

lemma ProcessOrder_live:
  assumes "liveBook e" and "ProcessOrder e order = Inr (result, e', calls)"
  shows "liveBook e'"
  using assms(2)
proof (cases rule: ProcessOrder_cases)
  case (threshold lp)
  with assms(1) show ?thesis by simp
next
  case (matching lp)
  from matchPath_live [OF assms(1) matching(3)] show ?thesis .
qed

lemma reachable_live: "reachable e \<Longrightarrow> liveBook e"
proof (induction rule: reachable.induct)
  case (reachable_new lp)
  show ?case by (simp add: liveBook_def NewMatchingEngine_def)
next
  case (reachable_pool e lp)
  then show ?case by (simp add: liveBook_def)
next
  case (reachable_process e order result e' calls)
  from ProcessOrder_live [OF reachable_process.IH reachable_process.hyps(2)] show ?case .
qed

lemma list_all2_set_right:
  assumes "list_all2 P xs ys" and "y \<in> set ys"
  shows "\<exists>x\<in>set xs. P x y"
proof -
  from assms(2) obtain i where i: "i < length ys" "ys ! i = y"
    by (auto simp add: in_set_conv_nth)
  with assms(1) have "P (xs ! i) y" "i < length xs"
    by (auto simp add: list_all2_conv_all_nth)
  then show ?thesis using nth_mem [of i xs] by blast
qed

lemma set_sortByPrice [simp]: "set (sortByPrice b book) = set book"
  by (simp add: sortByPrice_def)

lemma mset_sortByPrice [simp]: "mset (sortByPrice b book) = mset book"
  by (simp add: sortByPrice_def)

lemma matchOrders_from_book:
  "list_all (\<lambda>matched'. \<exists>matched\<in>set book. filledMore matched matched')
     (snd (matchOrders order book))"
proof -
  have "\<exists>matched\<in>set book. filledMore matched matched'"
    if "matched' \<in> set (fst (walk order book))" for matched'
    using list_all2_set_right [OF matchLoop_filledMore that [unfolded walk_def]]
    by simp
  then show ?thesis
    by (simp add: matchOrders_walk cleanupOrders_def list_all_iff)
qed

lemma matchPath_book:
  assumes "matchPath e order = (result, e', calls)"
  shows "matchingSide e' order = snd (matchOrders (order\<lparr>InitialAmount := Amount order, FilledAmount := 0\<rparr>) (matchingSide e order))"
    and "ownSide e' order =
           (if Type order = Limit \<and> 0 < RemainingAmount result
            then ownSide e order @ [order\<lparr>InitialAmount := Amount order, FilledAmount := 0,
                                        Amount := RemainingAmount result\<rparr>]
            else ownSide e order)"
proof -
  let ?o = "order\<lparr>InitialAmount := Amount order, FilledAmount := 0\<rparr>"
  have sides: "matchingSide x ?o = matchingSide x order" "ownSide x ?o = ownSide x order" for x
    by (simp_all add: matchingSide_def ownSide_def)
  show "matchingSide e' order = snd (matchOrders ?o (matchingSide e order))"
  proof (cases "Type order = Market")
    case True
    with assms obtain calls' where "processMarketOrder e ?o = (result, e', calls')"
      by (auto simp add: matchPath_def Let_def split: prod.splits)
    from processMarketOrder_book [OF this] sides [of e'] sides [of e]
      matchingSide_storeMatchingSide [of e ?o]
    show ?thesis by simp
  next
    case False
    with assms obtain calls' where "processLimitOrder e ?o = (result, e', calls')"
      by (auto simp add: matchPath_def Let_def split: prod.splits)
    from processLimitOrder_book [OF this] sides [of e'] sides [of e]
      matchingSide_storeMatchingSide [of e ?o] matchingSide_appendOwnSide [of _ ?o]
    show ?thesis by (simp split: if_splits)
  qed
  show "ownSide e' order =
           (if Type order = Limit \<and> 0 < RemainingAmount result
            then ownSide e order @ [order\<lparr>InitialAmount := Amount order, FilledAmount := 0,
                                        Amount := RemainingAmount result\<rparr>]
            else ownSide e order)"
  proof (cases "Type order = Market")
    case True
    with assms obtain calls' where "processMarketOrder e ?o = (result, e', calls')"
      by (auto simp add: matchPath_def Let_def split: prod.splits)
    from processMarketOrder_book [OF this] sides [of e'] sides [of e] True
      ownSide_storeMatchingSide [of e ?o]
    show ?thesis by simp
  next
    case False
    then have lim: "Type order = Limit" by (cases "Type order") simp_all
    from False assms obtain calls' where "processLimitOrder e ?o = (result, e', calls')"
      by (auto simp add: matchPath_def Let_def split: prod.splits)
    from processLimitOrder_book [OF this] sides [of e'] sides [of e] lim
      ownSide_storeMatchingSide [of e ?o] ownSide_appendOwnSide [of _ ?o]
    show ?thesis by (simp split: if_splits)
  qed
qed

section \<open>Orders with no positive amount\<close>





lemma list_all_sortByPrice [simp]:
  "list_all P (sortByPrice b book) = list_all P book"
  by (simp add: list_all_iff)

section \<open>The book across orders\<close>

text \<open>
  Claim C7. In every engine reachable from \<^verbatim>\<open>NewMatchingEngine\<close>, and so after every
  call of \<^verbatim>\<open>ProcessOrder\<close> on such an engine, no order resting on either side of the
  book has a filled amount at or above its amount: every resting order has a positive
  capacity left.
\<close>

theorem reachable_book_has_no_filled_order:
  assumes "reachable e"
  shows "list_all (\<lambda>resting. \<not> FilledAmount resting \<ge> Amount resting \<and>
                              0 < Amount resting - FilledAmount resting) (restingOrders e) \<and>
         (\<forall>order result e' calls.
            ProcessOrder e order = Inr (result, e', calls) \<longrightarrow>
            list_all (\<lambda>resting. \<not> FilledAmount resting \<ge> Amount resting \<and>
                                 0 < Amount resting - FilledAmount resting) (restingOrders e'))"
proof -
  have live: "list_all (\<lambda>resting. \<not> FilledAmount resting \<ge> Amount resting \<and>
                  0 < Amount resting - FilledAmount resting) (restingOrders x)"
    if "reachable x" for x
    using reachable_live [OF that]
    by (auto simp add: liveBook_def hasCapacity_def restingOrders_def list_all_iff)
  from live [OF assms] live [OF reachable_process [OF assms]] show ?thesis by blast
qed

text \<open>The engine after a limit sell of 10 and a market buy of 5: the sell rests with 5 of
  10 filled.\<close>

theorem reachable_book_has_no_filled_order_witness:
  "reachable (engineWith (MockLiquidityPool True) [] [sell_1\<lparr>FilledAmount := 5\<rparr>]) \<and>
   restingOrders (engineWith (MockLiquidityPool True) [] [sell_1\<lparr>FilledAmount := 5\<rparr>]) =
     [sell_1\<lparr>FilledAmount := 5\<rparr>] \<and>
   FilledAmount (sell_1\<lparr>FilledAmount := 5\<rparr>) = 5 \<and> Amount (sell_1\<lparr>FilledAmount := 5\<rparr>) = 10 \<and>
   list_all (\<lambda>resting. \<not> FilledAmount resting \<ge> Amount resting \<and>
                        0 < Amount resting - FilledAmount resting)
     (restingOrders (engineWith (MockLiquidityPool True) [] [sell_1\<lparr>FilledAmount := 5\<rparr>]))"
  using reachable_partly_filled reachable_book_has_no_filled_order [OF reachable_partly_filled]
  by (simp add: restingOrders_def engineWith_def sell_1_def zeroOrder_def)

text \<open>
  Claim C8. When \<^verbatim>\<open>ProcessOrder\<close> returns: for a market order the side of the book
  the order belongs to is unchanged, whatever remains; on the opposing side every order
  is an order that rested there before, with its filled amount possibly larger, so the
  incoming order is not stored there either. For a limit order whose outcome has a
  positive remaining amount, the order is appended to its own side with its amount set to
  exactly that remaining amount (and \<^verbatim>\<open>InitialAmount\<close>, \<^verbatim>\<open>FilledAmount\<close> as
  \<^verbatim>\<open>ProcessOrder\<close> resets them); with no positive remainder its side is unchanged.
\<close>

theorem market_order_never_rests_limit_remainder_rests:
  assumes "ProcessOrder e order = Inr (result, e', calls)"
  shows "(Type order = Market \<longrightarrow> ownSide e' order = ownSide e order) \<and>
         list_all (\<lambda>matched'. \<exists>matched\<in>set (matchingSide e order). filledMore matched matched')
           (matchingSide e' order) \<and>
         (Type order = Limit \<and> 0 < RemainingAmount result \<longrightarrow>
            ownSide e' order =
              ownSide e order @ [order\<lparr>InitialAmount := Amount order, FilledAmount := 0,
                                       Amount := RemainingAmount result\<rparr>]) \<and>
         (Type order = Limit \<and> \<not> 0 < RemainingAmount result \<longrightarrow>
            ownSide e' order = ownSide e order)"
  using assms
proof (cases rule: ProcessOrder_cases)
  case (threshold lp)
  then show ?thesis
    using filledMore_refl by (auto simp add: list_all_iff)
next
  case (matching lp)
  from matchPath_book [OF matching(3)] matchOrders_from_book show ?thesis
    by auto
qed

text \<open>A limit sell of 10 on an empty book with the pool filling 5: the sell rests with the
  amount 5. The market buy of \<^verbatim>\<open>TestPartialFillWithLiquidityPool\<close> leaves 7.5 unfilled
  and the buy side empty.\<close>

theorem market_order_never_rests_limit_remainder_rests_witness:
  "ProcessOrder (engineWith (MockLiquidityPool False) [] []) sell_1 =
     Inr (\<lparr>Success = False, ResultFilledAmount = 5, RemainingAmount = 5, ExecutedPrice = 0,
           Message = MatchMessage ''sell-1'' 10 0 0 0\<rparr>,
          engineWith (MockLiquidityPool False) [] [sell_1\<lparr>Amount := 5\<rparr>],
          [CallGetCurrentPrice [], CallGetAvailableLiquidity False,
           CallTradeWithPool ''sell-1'' 10 False]) \<and>
   Type sell_1 = Limit \<and>
   ownSide (engineWith (MockLiquidityPool False) [] [sell_1\<lparr>Amount := 5\<rparr>]) sell_1 =
     ownSide (engineWith (MockLiquidityPool False) [] []) sell_1 @
       [sell_1\<lparr>InitialAmount := Amount sell_1, FilledAmount := 0, Amount := 5\<rparr>] \<and>
   Type buy_2 = Market \<and>
   ownSide (engineWith (MockLiquidityPool False) [] []) buy_2 =
     ownSide (engineWith (MockLiquidityPool False) [] [sell_2]) buy_2"
  using run_limit_sell_half run_partial_fill
    market_order_never_rests_limit_remainder_rests [OF run_limit_sell_half]
    market_order_never_rests_limit_remainder_rests [OF run_partial_fill]
  by (simp add: sell_1_def buy_2_def zeroOrder_def)

section \<open>Orders with an amount that is not positive\<close>






section \<open>The limit price and the executed price\<close>

text \<open>
  Claim C6. For an incoming limit order the walk over the sorted opposing side stops at
  a resting order that has capacity and a price worse than the limit (a sell above the
  limit of a buy, a buy below the limit of a sell): that order and all after it are
  left as they are, and the fills are those of the walk over the orders before it. So
  every resting order is either untouched or filled at a price that is not worse than
  the limit. In particular, against a single resting order with a
  worse price (a limit buy at 100 against a sell at 101) nothing is filled and the book
  is unchanged.
\<close>

theorem limit_walk_stops_at_worse_price:
  assumes "Type order = Limit"
  shows "(sortByPrice (IsBuyOrder order) book = pre @ resting # post \<and>
          hasCapacity resting \<and> worseThanLimit order resting \<longrightarrow>
            walk order book =
              (fst (matchLoop order pre (startVars order)) @ resting # post,
               snd (matchLoop order pre (startVars order)))) \<and>
         list_all2 (limitFill order) (sortByPrice (IsBuyOrder order) book)
           (fst (walk order book)) \<and>
         (hasCapacity single \<and> worseThanLimit order single \<longrightarrow>
            matchOrders order [single] =
              (\<lparr>Success = (Amount order = 0), ResultFilledAmount = 0,
                RemainingAmount = Amount order, ExecutedPrice = 0,
                Message = MatchMessage (ID order) (InitialAmount order) 0 0 0\<rparr>,
               [single]))"
proof (intro conjI impI)
  assume "sortByPrice (IsBuyOrder order) book = pre @ resting # post \<and>
          hasCapacity resting \<and> worseThanLimit order resting"
  then show "walk order book =
      (fst (matchLoop order pre (startVars order)) @ resting # post,
       snd (matchLoop order pre (startVars order)))"
    using matchLoop_break [OF assms, of resting pre post "startVars order"]
    by (simp add: walk_def)
next
  show "list_all2 (limitFill order) (sortByPrice (IsBuyOrder order) book) (fst (walk order book))"
    unfolding walk_def by (rule matchLoop_limitFill [OF assms])
next
  assume "hasCapacity single \<and> worseThanLimit order single"
  then show "matchOrders order [single] =
      (\<lparr>Success = (Amount order = 0), ResultFilledAmount = 0,
        RemainingAmount = Amount order, ExecutedPrice = 0,
        Message = MatchMessage (ID order) (InitialAmount order) 0 0 0\<rparr>,
       [single])"
    using matchOrders_single_worse [OF assms, of single] by simp
qed

text \<open>
  A limit buy of 8 at 100 against the sells of
  \<^verbatim>\<open>TestLargeMarketOrderWithMultipleMatches\<close>, 5 at 100 and 7 at 101, stored in the
  other order: the walk fills the 5 at 100 and stops at the sell at 101. Scenario 5 of
  the specification: the limit buy at 100 against the sell at 101 alone.
\<close>

theorem limit_walk_stops_at_worse_price_witness:
  "Type (buy_3\<lparr>Amount := 8\<rparr>) = Limit \<and>
   sortByPrice (IsBuyOrder (buy_3\<lparr>Amount := 8\<rparr>)) [sell_5, sell_4] = [sell_4] @ sell_5 # [] \<and>
   hasCapacity sell_5 \<and> worseThanLimit (buy_3\<lparr>Amount := 8\<rparr>) sell_5 \<and>
   walk (buy_3\<lparr>Amount := 8\<rparr>) [sell_5, sell_4] =
     ([sell_4\<lparr>FilledAmount := 5\<rparr>, sell_5],
      \<lparr>remainingAmount = 3, filledAmount = 5, weightedSum = 500, orderbookFilled = 5\<rparr>) \<and>
   matchOrders (buy_3\<lparr>Amount := 8\<rparr>) [sell_5] =
     (\<lparr>Success = False, ResultFilledAmount = 0, RemainingAmount = 8, ExecutedPrice = 0,
       Message = MatchMessage ''buy-3'' 5 0 0 0\<rparr>,
      [sell_5])"
proof -
  have limit: "Type (buy_3\<lparr>Amount := 8\<rparr>) = Limit"
    by (simp add: buy_3_def zeroOrder_def)
  have sorted: "sortByPrice (IsBuyOrder (buy_3\<lparr>Amount := 8\<rparr>)) [sell_5, sell_4] =
      [sell_4] @ sell_5 # []"
    by (simp add: sortByPrice_def buy_3_def sell_4_def sell_5_def zeroOrder_def)
  have worse: "hasCapacity sell_5 \<and> worseThanLimit (buy_3\<lparr>Amount := 8\<rparr>) sell_5"
    by (simp add: hasCapacity_def worseThanLimit_def buy_3_def sell_5_def zeroOrder_def)
  have before: "matchLoop (buy_3\<lparr>Amount := 8\<rparr>) [sell_4] (startVars (buy_3\<lparr>Amount := 8\<rparr>)) =
      ([sell_4\<lparr>FilledAmount := 5\<rparr>],
       \<lparr>remainingAmount = 3, filledAmount = 5, weightedSum = 500, orderbookFilled = 5\<rparr>)"
    by (simp add: startVars_def min_f_def buy_3_def sell_4_def zeroOrder_def Let_def)
  from limit_walk_stops_at_worse_price [OF limit, of "[sell_5, sell_4]" "[sell_4]" sell_5 "[]" sell_5]
    limit sorted worse before
  show ?thesis
    by (simp add: buy_3_def zeroOrder_def)
qed

text \<open>
  Claim C1 does not hold of the code; the specification and the repository's own test
  \<^verbatim>\<open>TestComplexOrderScenario\<close> state it. \<^verbatim>\<open>matchOrders\<close> computes the executed
  price from the fills of the book alone, and \<^verbatim>\<open>processMarketOrder\<close> and
  \<^verbatim>\<open>processLimitOrder\<close> add the fill of the pool to the filled amount without touching
  the price. On the input of the test (sells of 5 at 100 and 7 at 102, a market buy of
  15, the pool filling 1.5 at the reference price 100) the outcome has the filled amount
  13.5 and the executed price 1214 / 12, not the weighted average over all fills,
  1364 / 13.5, that the test expects.
\<close>

theorem executed_price_leaves_out_pool_fill:
  "ProcessOrder (engineWith (MockLiquidityPool False) [] [complex_sell_1, complex_sell_2])
     complex_buy_1 =
     Inr (\<lparr>Success = False, ResultFilledAmount = 27 / 2, RemainingAmount = 3 / 2,
           ExecutedPrice = 607 / 6, Message = MatchMessage ''buy-1'' 15 12 12 0\<rparr>,
          engineWith (MockLiquidityPool False) [] [],
          [CallGetCurrentPrice ''BTC'', CallGetAvailableLiquidity True,
           CallTradeWithPool ''buy-1'' 3 True]) \<and>
   (607 / 6 :: real) \<noteq>
     (5 * 100 + 7 * 102 + 3 / 2 * GetCurrentPrice (MockLiquidityPool False) ''BTC'') / (27 / 2)"
  by (simp add: run_defs complex_sell_1_def complex_sell_2_def complex_buy_1_def)

end
